theory Spec2Isabelle
  imports Main "HOL-Library.Word" "HOL-Library.AList"
begin

section \<open>JavaScript strings\<close>

text \<open>
  A JavaScript string is a sequence of UTF-16 code units. The regular expressions and
  the percent-encoder of the sources work on code units, so strings are lists of
  16-bit words. \<open>str16\<close> writes an ASCII literal of the source as such a list.
\<close>

type_synonym jsstring = "16 word list"

definition str16 :: "string \<Rightarrow> jsstring" where
  "str16 s = map (\<lambda>c. of_nat (of_char c)) s"

text \<open>
  The code units that \<open>String.prototype.trim\<close> removes and that \<open>\s\<close> matches:
  WhiteSpace and LineTerminator of ECMAScript.
\<close>

definition isWhiteSpace :: "16 word \<Rightarrow> bool" where
  "isWhiteSpace u =
     (u = 0x09 \<or> u = 0x0A \<or> u = 0x0B \<or> u = 0x0C \<or> u = 0x0D \<or> u = 0x20 \<or> u = 0xA0
      \<or> u = 0x1680 \<or> (0x2000 \<le> u \<and> u \<le> 0x200A) \<or> u = 0x2028 \<or> u = 0x2029
      \<or> u = 0x202F \<or> u = 0x205F \<or> u = 0x3000 \<or> u = 0xFEFF)"

definition trim :: "jsstring \<Rightarrow> jsstring" where
  "trim s = rev (dropWhile isWhiteSpace (rev (dropWhile isWhiteSpace s)))"

text \<open>\<open>s.split(sep)\<close> for a separator of one code unit; the result is never empty.\<close>

fun split_on :: "16 word \<Rightarrow> jsstring \<Rightarrow> jsstring list" where
  "split_on sep [] = [[]]"
| "split_on sep (c # cs) =
     (if c = sep then [] # split_on sep cs
      else (case split_on sep cs of
              [] \<Rightarrow> [[c]]
            | p # ps \<Rightarrow> (c # p) # ps))"

text \<open>
  \<open>s.replace(/[class]+/g, " ")\<close>: every maximal run of code units of the class becomes
  one space.
\<close>

function replaceRuns :: "(16 word \<Rightarrow> bool) \<Rightarrow> jsstring \<Rightarrow> jsstring" where
  "replaceRuns P [] = []"
| "replaceRuns P (c # cs) =
     (if P c then 0x20 # replaceRuns P (dropWhile P cs) else c # replaceRuns P cs)"
  by pat_completeness auto
termination
  by (relation "measure (\<lambda>(P, s). length s)")
     (auto simp: length_dropWhile_le le_imp_less_Suc)

section \<open>Text normalisation: \<open>englishOnlyText\<close> (src/lib/openapi.ts)\<close>

text \<open>The character class of the source: the code units U+3400 to U+9FFF and U+F900 to U+FAFF.\<close>

definition isCjk :: "16 word \<Rightarrow> bool" where
  "isCjk u = ((0x3400 \<le> u \<and> u \<le> 0x9FFF) \<or> (0xF900 \<le> u \<and> u \<le> 0xFAFF))"

definition hasCjk :: "jsstring \<Rightarrow> bool" where
  "hasCjk t = list_ex isCjk t"

text \<open>The character class \<open>[A-Za-z]\<close>.\<close>

definition isLatinLetter :: "16 word \<Rightarrow> bool" where
  "isLatinLetter u = ((0x41 \<le> u \<and> u \<le> 0x5A) \<or> (0x61 \<le> u \<and> u \<le> 0x7A))"

definition hasLatin :: "jsstring \<Rightarrow> bool" where
  "hasLatin t = list_ex isLatinLetter t"

definition englishOnlyText :: "jsstring \<Rightarrow> jsstring" where
  "englishOnlyText s =
     (let trimmed = trim s in
      if trimmed = [] then []
      else
        let slashParts = filter (\<lambda>part. part \<noteq> []) (map trim (split_on 0x2F trimmed));
            englishPart =
              (if length slashParts > 1 then
                 (case find (\<lambda>part. hasLatin part \<and> \<not> hasCjk part) slashParts of
                    Some part \<Rightarrow> Some part
                  | None \<Rightarrow>
                     (case find (\<lambda>part. \<not> hasCjk part) slashParts of
                        Some part \<Rightarrow> Some part
                      | None \<Rightarrow> find hasLatin slashParts))
               else None)
        in case englishPart of
             Some part \<Rightarrow> part
           | None \<Rightarrow>
               let stripped = trim (replaceRuns isWhiteSpace (replaceRuns isCjk trimmed))
               in if stripped \<noteq> [] then stripped else trimmed)"

section \<open>Data model (src/types.ts)\<close>

text \<open>
  A value of type \<open>unknown\<close> read from the parsed document is a JSON value. An object
  is the list of its entries in enumeration order. Numbers are only carried around or
  created as the literal \<open>1\<close>, so integers stand for them.
\<close>

datatype json =
    JNull
  | JBool bool
  | JNum int
  | JStr jsstring
  | JArr "json list"
  | JObj "(jsstring \<times> json) list"

text \<open>
  \<open>Record<string, T>\<close> is the list of its entries in the order \<open>Object.entries\<close>
  yields them; \<open>r[key]\<close> is \<open>map_of r key\<close>. An optional field is an \<open>option\<close>.
\<close>

type_synonym 'a jsrecord = "(jsstring \<times> 'a) list"

datatype SchemaObject = SchemaObject
  (s_type: "jsstring option")
  (s_format: "jsstring option")
  (s_properties: "(jsstring \<times> SchemaObject) list option")
  (s_items: "SchemaObject option")
  (s_enum: "json list option")
  (s_default: "json option")
  (s_example: "json option")
  (s_description: "jsstring option")
  (s_required: "jsstring list option")
  (s_oneOf: "SchemaObject list option")
  (s_anyOf: "SchemaObject list option")
  (s_allOf: "SchemaObject list option")
  (s_additionalProperties: "(bool + SchemaObject) option")
  (s_ref: "jsstring option")

text \<open>\<open>xs?.length\<close> and \<open>xs[0]\<close> on an optional array read the elements, none when absent.\<close>

definition elems :: "'a list option \<Rightarrow> 'a list" where
  "elems xs = (case xs of None \<Rightarrow> [] | Some ys \<Rightarrow> ys)"

datatype HttpMethod = Get | Post | Put | Patch | Delete | Options | Head | Trace

text \<open>The string an \<open>HttpMethod\<close> is in the source.\<close>

fun methodName :: "HttpMethod \<Rightarrow> jsstring" where
  "methodName Get = str16 ''get''"
| "methodName Post = str16 ''post''"
| "methodName Put = str16 ''put''"
| "methodName Patch = str16 ''patch''"
| "methodName Delete = str16 ''delete''"
| "methodName Options = str16 ''options''"
| "methodName Head = str16 ''head''"
| "methodName Trace = str16 ''trace''"

datatype ParamLocation = Query | Header | Path | Cookie

record ParameterObject =
  p_name :: jsstring
  p_in :: ParamLocation
  p_required :: "bool option"
  p_description :: "jsstring option"
  p_schema :: "SchemaObject option"
  p_example :: "json option"

text \<open>An entry of \<open>examples\<close> is \<open>{ value?: unknown }\<close>: the optional value.\<close>

record MediaTypeObject =
  m_schema :: "SchemaObject option"
  m_example :: "json option"
  m_examples :: "json option jsrecord option"

record ResponseObject =
  r_description :: "jsstring option"
  r_content :: "MediaTypeObject jsrecord option"

record RequestBodyObject =
  rb_required :: "bool option"
  rb_content :: "MediaTypeObject jsrecord option"

record OperationObject =
  o_operationId :: "jsstring option"
  o_tags :: "jsstring list option"
  o_summary :: "jsstring option"
  o_description :: "jsstring option"
  o_parameters :: "ParameterObject list option"
  o_requestBody :: "RequestBodyObject option"
  o_responses :: "ResponseObject jsrecord"
  o_security :: "jsstring list jsrecord list option"

text \<open>
  \<open>PathItemObject\<close> is a partial record from the eight methods to operations, with the
  path-level parameters: \<open>pathItem[method]\<close> is \<open>pi_operation pathItem method\<close>.
\<close>

record PathItemObject =
  pi_operation :: "HttpMethod \<Rightarrow> OperationObject option"
  pi_parameters :: "ParameterObject list option"

record InfoObject =
  i_title :: "jsstring option"
  i_version :: "jsstring option"
  i_description :: "jsstring option"

record ComponentsObject =
  c_schemas :: "SchemaObject jsrecord option"
  c_securitySchemes :: "json jsrecord option"

record OpenApiSpec =
  sp_openapi :: "jsstring option"
  sp_info :: "InfoObject option"
  sp_components :: "ComponentsObject option"
  sp_paths :: "PathItemObject jsrecord"

text \<open>
  The normalized records. Three fields of the source are left out, each computed by a
  formatting function of the platform from values kept here and read by no property
  below: \<open>defaultValue\<close> of a parameter (\<open>String(...)\<close>), \<open>app\<close>
  (\<open>toLowerCase\<close> and the keyword table) and \<open>requestBodyTemplate\<close>
  (\<open>JSON.stringify\<close>).
\<close>

record ParsedParameter =
  pp_name :: jsstring
  pp_required :: bool
  pp_location :: ParamLocation
  pp_description :: jsstring
  pp_type :: jsstring

record ParsedOperation =
  po_id :: jsstring
  po_tag :: jsstring
  po_method :: HttpMethod
  po_path :: jsstring
  po_summary :: jsstring
  po_description :: jsstring
  po_requiresAuth :: bool
  po_parameters :: "ParsedParameter list"
  po_requestBodyType :: "jsstring option"
  po_requestBodyRaw :: "json option"
  po_responseCodes :: "jsstring list"
  po_successExample :: json
  po_errorExample :: json

section \<open>Schema resolver and example synthesizer (src/lib/openapi.ts)\<close>

definition getRefName :: "jsstring \<Rightarrow> jsstring" where
  "getRefName ref = last (split_on 0x2F ref)"

definition resolveSchema ::
  "SchemaObject option \<Rightarrow> SchemaObject jsrecord \<Rightarrow> SchemaObject option" where
  "resolveSchema schema schemas =
     (case schema of
        None \<Rightarrow> None
      | Some s \<Rightarrow>
         (case s_ref s of
            None \<Rightarrow> Some s
          | Some r \<Rightarrow>
             if r = [] then Some s
             else (case map_of schemas (getRefName r) of
                     Some t \<Rightarrow> Some t
                   | None \<Rightarrow> Some s)))"

definition schemaType :: "SchemaObject option \<Rightarrow> jsstring" where
  "schemaType schema =
     (case schema of
        None \<Rightarrow> str16 ''string''
      | Some s \<Rightarrow>
         if elems (s_enum s) \<noteq> [] then str16 ''enum''
         else (case s_type s of Some t \<Rightarrow> t | None \<Rightarrow> str16 ''string''))"

text \<open>
  \<open>Object.assign(acc, value)\<close>: each entry of \<open>value\<close>, in order, is written into
  \<open>acc\<close>; \<open>AList.update\<close> overwrites a key in place and appends a new one, as
  \<open>acc[key] = v\<close> does.
\<close>

definition Object_assign :: "'a jsrecord \<Rightarrow> 'a jsrecord \<Rightarrow> 'a jsrecord" where
  "Object_assign acc val = fold (\<lambda>kv obj. AList.update (fst kv) (snd kv) obj) val acc"

function buildExampleFromSchema ::
  "SchemaObject option \<Rightarrow> SchemaObject jsrecord \<Rightarrow> nat \<Rightarrow> json" where
  "buildExampleFromSchema schema schemas depth =
     (case schema of
        None \<Rightarrow> JObj []
      | Some s \<Rightarrow>
         if depth > 5 then JObj []
         else
           let resolved = (case resolveSchema (Some s) schemas of Some r \<Rightarrow> r | None \<Rightarrow> s) in
           case s_example resolved of
             Some e \<Rightarrow> e
           | None \<Rightarrow>
           case s_default resolved of
             Some d \<Rightarrow> d
           | None \<Rightarrow>
           case elems (s_enum resolved) of
             e # _ \<Rightarrow> e
           | [] \<Rightarrow>
           case elems (s_oneOf resolved) of
             a # _ \<Rightarrow> buildExampleFromSchema (Some a) schemas (depth + 1)
           | [] \<Rightarrow>
           case elems (s_anyOf resolved) of
             a # _ \<Rightarrow> buildExampleFromSchema (Some a) schemas (depth + 1)
           | [] \<Rightarrow>
           if elems (s_allOf resolved) \<noteq> [] then
             JObj (fold (\<lambda>item acc.
                           case buildExampleFromSchema (Some item) schemas (depth + 1) of
                             JObj val \<Rightarrow> Object_assign acc val
                           | _ \<Rightarrow> acc)
                        (elems (s_allOf resolved)) [])
           else if s_type resolved = Some (str16 ''object'') then
             let properties = (case s_properties resolved of Some ps \<Rightarrow> ps | None \<Rightarrow> []);
                 obj = fold (\<lambda>kv obj.
                               AList.update (fst kv)
                                 (buildExampleFromSchema (Some (snd kv)) schemas (depth + 1)) obj)
                            properties []
             in if obj = [] then
                  (case s_additionalProperties resolved of
                     Some (Inr a) \<Rightarrow>
                       JObj [(str16 ''example_key'',
                              buildExampleFromSchema (Some a) schemas (depth + 1))]
                   | _ \<Rightarrow> JObj obj)
                else JObj obj
           else if s_type resolved = Some (str16 ''array'') then
             JArr [buildExampleFromSchema (s_items resolved) schemas (depth + 1)]
           else if s_type resolved = Some (str16 ''integer'')
                   \<or> s_type resolved = Some (str16 ''number'') then JNum 1
           else if s_type resolved = Some (str16 ''boolean'') then JBool True
           else if s_format resolved = Some (str16 ''date-time'')
             then JStr (str16 ''2026-01-01T00:00:00Z'')
           else if s_format resolved = Some (str16 ''date'') then JStr (str16 ''2026-01-01'')
           else JStr (str16 ''string''))"
  by pat_completeness auto
termination
  by (relation "measure (\<lambda>(schema, schemas, depth). 6 - depth)") auto

declare buildExampleFromSchema.simps [simp del]

section \<open>Reading synthesized values\<close>


section \<open>Operation normalizer and catalog builder (src/lib/openapi.ts)\<close>

definition SUPPORTED_METHODS :: "HttpMethod list" where
  "SUPPORTED_METHODS = [Get, Post, Put, Patch, Delete, Options, Head, Trace]"

definition getExampleFromMedia ::
  "MediaTypeObject jsrecord option \<Rightarrow> SchemaObject jsrecord \<Rightarrow> json option" where
  "getExampleFromMedia content schemas =
     (case content of
        None \<Rightarrow> None
      | Some c \<Rightarrow>
         (case c of
            [] \<Rightarrow> None
          | (_, firstMedia) # _ \<Rightarrow>
             (case m_example firstMedia of
                Some e \<Rightarrow> Some e
              | None \<Rightarrow>
                 (case (case elems (m_examples firstMedia) of
                          [] \<Rightarrow> None
                        | (_, firstExample) # _ \<Rightarrow> firstExample) of
                    Some v \<Rightarrow> Some v
                  | None \<Rightarrow>
                     Some (buildExampleFromSchema
                             (resolveSchema (m_schema firstMedia) schemas) schemas 0)))))"

definition responseExample ::
  "ResponseObject jsrecord \<Rightarrow> jsstring \<Rightarrow> SchemaObject jsrecord \<Rightarrow> json" where
  "responseExample responses preferredCode schemas =
     (let preferred = map_of responses preferredCode;
          fromPreferred =
            getExampleFromMedia (case preferred of None \<Rightarrow> None | Some p \<Rightarrow> r_content p) schemas
      in case fromPreferred of
           Some v \<Rightarrow> v
         | None \<Rightarrow>
            (let first = (case responses of [] \<Rightarrow> None | (_, f) # _ \<Rightarrow> Some f);
                 fromFirst =
                   getExampleFromMedia (case first of None \<Rightarrow> None | Some f \<Rightarrow> r_content f)
                     schemas
             in case fromFirst of
                  Some v \<Rightarrow> v
                | None \<Rightarrow> JObj []))"

text \<open>\<open>list.findIndex(pred)\<close>: the first index whose element satisfies \<open>pred\<close>;
  \<open>None\<close> stands for the result \<open>-1\<close>.\<close>

fun findIndex :: "('a \<Rightarrow> bool) \<Rightarrow> 'a list \<Rightarrow> nat option" where
  "findIndex pred [] = None"
| "findIndex pred (x # xs) =
     (if pred x then Some 0 else map_option Suc (findIndex pred xs))"

text \<open>
  The local constants of the loop body of \<open>parseOperations\<close>, under their names there.
\<close>

definition mergedParameters :: "PathItemObject \<Rightarrow> OperationObject \<Rightarrow> ParameterObject list" where
  "mergedParameters pathItem op = elems (pi_parameters pathItem) @ elems (o_parameters op)"

definition uniqueParameters :: "ParameterObject list \<Rightarrow> ParameterObject list" where
  "uniqueParameters merged =
     map snd
       (filter (\<lambda>(index, param).
                  findIndex (\<lambda>candidate. p_name candidate = p_name param
                                          \<and> p_in candidate = p_in param) merged
                  = Some index)
               (enumerate 0 merged))"

definition parsedParameter :: "SchemaObject jsrecord \<Rightarrow> ParameterObject \<Rightarrow> ParsedParameter" where
  "parsedParameter schemas param =
     (let resolved = resolveSchema (p_schema param) schemas in
      \<lparr> pp_name = p_name param,
        pp_required = (case p_required param of Some b \<Rightarrow> b | None \<Rightarrow> False),
        pp_location = p_in param,
        pp_description =
          englishOnlyText (case p_description param of Some d \<Rightarrow> d | None \<Rightarrow> []),
        pp_type = schemaType resolved \<rparr>)"

definition startsWith :: "jsstring \<Rightarrow> 16 word \<Rightarrow> bool" where
  "startsWith code u = (case code of [] \<Rightarrow> False | c # _ \<Rightarrow> c = u)"

definition successCode :: "jsstring list \<Rightarrow> jsstring" where
  "successCode responseCodes =
     (if str16 ''200'' \<in> set responseCodes then str16 ''200''
      else (case responseCodes of c # _ \<Rightarrow> c | [] \<Rightarrow> str16 ''200''))"

definition errorCode :: "jsstring list \<Rightarrow> jsstring" where
  "errorCode responseCodes =
     (if str16 ''422'' \<in> set responseCodes then str16 ''422''
      else (case find (\<lambda>code. startsWith code 0x34 \<or> startsWith code 0x35) responseCodes of
              Some c \<Rightarrow> c
            | None \<Rightarrow> successCode responseCodes))"

text \<open>The body of the two loops: the record pushed for one path and one declared method.\<close>

definition parseOperation ::
  "SchemaObject jsrecord \<Rightarrow> jsstring \<Rightarrow> PathItemObject \<Rightarrow> HttpMethod \<Rightarrow> OperationObject
     \<Rightarrow> ParsedOperation" where
  "parseOperation schemas path pathItem method op =
     (let tag = (case elems (o_tags op) of t # _ \<Rightarrow> t | [] \<Rightarrow> str16 ''Other'');
          ident = (case o_operationId op of
                     Some i \<Rightarrow> i
                   | None \<Rightarrow> methodName method @ [0x5F] @ path);
          parameters =
            map (parsedParameter schemas) (uniqueParameters (mergedParameters pathItem op));
          content = (case o_requestBody op of None \<Rightarrow> None | Some rb \<Rightarrow> rb_content rb);
          requestBodyType =
            (case content of
               None \<Rightarrow> None
             | Some c \<Rightarrow> (case c of [] \<Rightarrow> None | (k, _) # _ \<Rightarrow> Some k));
          requestBodyRaw = getExampleFromMedia content schemas;
          responseCodes = map fst (o_responses op)
      in \<lparr> po_id = ident,
           po_tag = tag,
           po_method = method,
           po_path = path,
           po_summary = englishOnlyText (case o_summary op of Some t \<Rightarrow> t | None \<Rightarrow> ident),
           po_description =
             englishOnlyText (case o_description op of Some t \<Rightarrow> t | None \<Rightarrow> []),
           po_requiresAuth = (case o_security op of Some _ \<Rightarrow> True | None \<Rightarrow> False),
           po_parameters = parameters,
           po_requestBodyType = requestBodyType,
           po_requestBodyRaw = requestBodyRaw,
           po_responseCodes = responseCodes,
           po_successExample =
             responseExample (o_responses op) (successCode responseCodes) schemas,
           po_errorExample =
             responseExample (o_responses op) (errorCode responseCodes) schemas \<rparr>)"

text \<open>
  The comparator handed to \<open>sort\<close>. \<open>String.prototype.localeCompare\<close> is the
  collation of the platform's locale, not part of the sources: it is the parameter
  \<open>localeCompare\<close>, a function to a negative, zero or positive number.
\<close>

definition compareOperations ::
  "(jsstring \<Rightarrow> jsstring \<Rightarrow> int) \<Rightarrow> ParsedOperation \<Rightarrow> ParsedOperation \<Rightarrow> int" where
  "compareOperations localeCompare a b =
     (if po_tag a \<noteq> po_tag b then localeCompare (po_tag a) (po_tag b)
      else if po_path a \<noteq> po_path b then localeCompare (po_path a) (po_path b)
      else localeCompare (methodName (po_method a)) (methodName (po_method b)))"

text \<open>
  \<open>Array.prototype.sort\<close> with a comparator is a stable sort: an element moves in
  front of another only when the comparator says it is smaller. Insertion from the
  right end, before the first element that is not smaller, is that sort.
\<close>

fun insertSorted :: "('a \<Rightarrow> 'a \<Rightarrow> int) \<Rightarrow> 'a \<Rightarrow> 'a list \<Rightarrow> 'a list" where
  "insertSorted cmp x [] = [x]"
| "insertSorted cmp x (y # ys) =
     (if cmp x y \<le> 0 then x # y # ys else y # insertSorted cmp x ys)"

definition sortWith :: "('a \<Rightarrow> 'a \<Rightarrow> int) \<Rightarrow> 'a list \<Rightarrow> 'a list" where
  "sortWith cmp xs = foldr (insertSorted cmp) xs []"

text \<open>
  The two loops visit every path of the paths table, in its order, and under it every
  supported method, in the order of \<open>SUPPORTED_METHODS\<close>, for which the path item has
  an operation. \<open>declaredOperations\<close> is the list of these visits, and
  \<open>walkOperations\<close> the list of the records pushed, one per visit.
\<close>

definition declaredOperations ::
  "OpenApiSpec \<Rightarrow> (jsstring \<times> PathItemObject \<times> HttpMethod \<times> OperationObject) list" where
  "declaredOperations spec =
     concat
       (map (\<lambda>(path, pathItem).
               List.map_filter
                 (\<lambda>method. case pi_operation pathItem method of
                              None \<Rightarrow> None
                            | Some op \<Rightarrow> Some (path, pathItem, method, op))
                 SUPPORTED_METHODS)
            (sp_paths spec))"

definition walkOperations :: "OpenApiSpec \<Rightarrow> ParsedOperation list" where
  "walkOperations spec =
     (let schemas = (case sp_components spec of
                       None \<Rightarrow> []
                     | Some c \<Rightarrow> (case c_schemas c of None \<Rightarrow> [] | Some t \<Rightarrow> t))
      in map (\<lambda>(path, pathItem, method, op). parseOperation schemas path pathItem method op)
           (declaredOperations spec))"

definition parseOperations ::
  "(jsstring \<Rightarrow> jsstring \<Rightarrow> int) \<Rightarrow> OpenApiSpec \<Rightarrow> ParsedOperation list" where
  "parseOperations localeCompare spec =
     sortWith (compareOperations localeCompare) (walkOperations spec)"

text \<open>
  The identifiers a document gives rise to: the explicit ones, copied from the
  operations that declare an \<open>operationId\<close>, and the synthesized ones
  \<open><method>_<path>\<close> of the operations that declare none, each in the order of the walk.
\<close>

definition explicitIds :: "OpenApiSpec \<Rightarrow> jsstring list" where
  "explicitIds spec =
     List.map_filter (\<lambda>(path, pathItem, method, op). o_operationId op)
       (declaredOperations spec)"

definition synthesizedIds :: "OpenApiSpec \<Rightarrow> jsstring list" where
  "synthesizedIds spec =
     map (\<lambda>(path, pathItem, method, op). methodName method @ [0x5F] @ path)
       (filter (\<lambda>(path, pathItem, method, op). o_operationId op = None)
          (declaredOperations spec))"

section \<open>Request URL (src/lib/snippets.ts)\<close>














section \<open>Relay (api/proxy.ts)\<close>

text \<open>
  The platform of the relay is a parameter: the URL parser (\<open>None\<close> when
  \<open>new URL(text)\<close> throws), the case mappings of strings, and the upstream server
  behind \<open>fetch\<close>.
\<close>

record URL =
  url_protocol :: jsstring
  url_hostname :: jsstring
  url_href :: jsstring

record RequestInit =
  ri_method :: jsstring
  ri_headers :: "jsstring jsrecord"
  ri_body :: "jsstring option"

datatype Upstream =
    Replied nat jsstring "jsstring option"
  | Aborted
  | Failed

record Runtime =
  URL_new :: "jsstring \<Rightarrow> URL option"
  toUpperCase :: "jsstring \<Rightarrow> jsstring"
  toLowerCase :: "jsstring \<Rightarrow> jsstring"
  fetch :: "jsstring \<Rightarrow> RequestInit \<Rightarrow> Upstream"

text \<open>
  \<open>ProxyPayload\<close>; a \<open>body\<close> that is \<open>null\<close> or absent is \<open>None\<close>. The body of a
  request is either text that is not JSON (\<open>Malformed\<close>) or a payload.
\<close>

record ProxyPayload =
  pl_url :: "jsstring option"
  pl_method :: "jsstring option"
  pl_headers :: "jsstring jsrecord option"
  pl_body :: "jsstring option"

datatype RequestBody = Malformed | Payload ProxyPayload

record ProxyRequest =
  rq_method :: "jsstring option"
  rq_body :: RequestBody

record Response =
  rs_status :: nat
  rs_body :: jsstring
  rs_headers :: "jsstring jsrecord"

definition ALLOWED_HOSTS :: "jsstring set" where
  "ALLOWED_HOSTS = {str16 ''api.tikhub.io'', str16 ''api.tikhub.dev''}"

definition ALLOWED_METHODS :: "jsstring set" where
  "ALLOWED_METHODS =
     {str16 ''GET'', str16 ''POST'', str16 ''PUT'', str16 ''PATCH'', str16 ''DELETE''}"

definition normalizeHeaders :: "Runtime \<Rightarrow> jsstring jsrecord option \<Rightarrow> jsstring jsrecord" where
  "normalizeHeaders rt input =
     (case input of
        None \<Rightarrow> []
      | Some hs \<Rightarrow>
         fold (\<lambda>kv output.
                 let key = toLowerCase rt (fst kv)
                 in if key = str16 ''host'' \<or> key = str16 ''origin''
                       \<or> key = str16 ''content-length''
                    then output
                    else AList.update (fst kv) (snd kv) output)
              hs [])"

text \<open>
  A handler returns its response and the list of the upstream requests it has made. A
  response sent before \<open>fetch\<close> is reached comes with the empty list.
\<close>

definition respond :: "nat \<Rightarrow> string \<Rightarrow> Response \<times> (jsstring \<times> RequestInit) list" where
  "respond status message =
     (\<lparr> rs_status = status, rs_body = str16 message, rs_headers = [] \<rparr>, [])"

definition forwardedHeaders :: "jsstring option \<Rightarrow> jsstring jsrecord" where
  "forwardedHeaders contentType =
     (case contentType of
        None \<Rightarrow> []
      | Some ct \<Rightarrow> if ct \<noteq> [] then [(str16 ''content-type'', ct)] else [])
     @ [(str16 ''cache-control'', str16 ''no-store'')]"

text \<open>The handler on \<open>Request\<close> and \<open>Response\<close>: every failure of \<open>fetch\<close> is a 502.\<close>

definition handler_edge ::
  "Runtime \<Rightarrow> ProxyRequest \<Rightarrow> Response \<times> (jsstring \<times> RequestInit) list" where
  "handler_edge rt request =
     (if rq_method request \<noteq> Some (str16 ''POST'') then respond 405 ''Method Not Allowed''
      else case rq_body request of
        Malformed \<Rightarrow> respond 400 ''Invalid JSON payload''
      | Payload payload \<Rightarrow>
         (case map_option trim (pl_url payload) of
            None \<Rightarrow> respond 400 ''Missing target URL''
          | Some urlText \<Rightarrow>
             if urlText = [] then respond 400 ''Missing target URL''
             else case URL_new rt urlText of
               None \<Rightarrow> respond 400 ''Invalid target URL''
             | Some targetUrl \<Rightarrow>
                if url_protocol targetUrl \<noteq> str16 ''https:''
                   \<or> url_hostname targetUrl \<notin> ALLOWED_HOSTS
                then respond 403 ''Target host is not allowed''
                else
                  let m = toUpperCase rt
                            (case pl_method payload of Some t \<Rightarrow> t | None \<Rightarrow> str16 ''GET'')
                  in if m \<notin> ALLOWED_METHODS then respond 405 ''Method is not allowed''
                     else
                       let headers = normalizeHeaders rt (pl_headers payload);
                           init = \<lparr> ri_method = m, ri_headers = headers,
                                    ri_body = (if m \<noteq> str16 ''GET'' then pl_body payload
                                               else None) \<rparr>
                       in case fetch rt (url_href targetUrl) init of
                            Replied status body contentType \<Rightarrow>
                              (\<lparr> rs_status = status, rs_body = body,
                                 rs_headers = forwardedHeaders contentType \<rparr>,
                               [(url_href targetUrl, init)])
                          | _ \<Rightarrow>
                              (\<lparr> rs_status = 502, rs_body = str16 ''Upstream request failed'',
                                 rs_headers = [] \<rparr>,
                               [(url_href targetUrl, init)])))"

text \<open>
  The handler on \<open>req\<close> and \<open>res\<close>, with the 30 second timeout: \<open>Aborted\<close> is the
  \<open>AbortError\<close> of the timeout, answered with 504.
\<close>

definition handler_node ::
  "Runtime \<Rightarrow> ProxyRequest \<Rightarrow> Response \<times> (jsstring \<times> RequestInit) list" where
  "handler_node rt req =
     (if rq_method req \<noteq> Some (str16 ''POST'') then respond 405 ''Method Not Allowed''
      else case rq_body req of
        Malformed \<Rightarrow> respond 400 ''Invalid JSON payload''
      | Payload payload \<Rightarrow>
         (case map_option trim (pl_url payload) of
            None \<Rightarrow> respond 400 ''Missing target URL''
          | Some urlText \<Rightarrow>
             if urlText = [] then respond 400 ''Missing target URL''
             else case URL_new rt urlText of
               None \<Rightarrow> respond 400 ''Invalid target URL''
             | Some targetUrl \<Rightarrow>
                if url_protocol targetUrl \<noteq> str16 ''https:''
                   \<or> url_hostname targetUrl \<notin> ALLOWED_HOSTS
                then respond 403 ''Target host is not allowed''
                else
                  let m = toUpperCase rt
                            (case pl_method payload of Some t \<Rightarrow> t | None \<Rightarrow> str16 ''GET'')
                  in if m \<notin> ALLOWED_METHODS then respond 405 ''Method is not allowed''
                     else
                       let headers = normalizeHeaders rt (pl_headers payload);
                           init = \<lparr> ri_method = m, ri_headers = headers,
                                    ri_body = (if m \<noteq> str16 ''GET'' then pl_body payload
                                               else None) \<rparr>
                       in case fetch rt (url_href targetUrl) init of
                            Replied status body contentType \<Rightarrow>
                              (\<lparr> rs_status = status, rs_body = body,
                                 rs_headers = forwardedHeaders contentType \<rparr>,
                               [(url_href targetUrl, init)])
                          | Aborted \<Rightarrow>
                              (\<lparr> rs_status = 504,
                                 rs_body = str16 ''Upstream request timed out'',
                                 rs_headers = [] \<rparr>,
                               [(url_href targetUrl, init)])
                          | Failed \<Rightarrow>
                              (\<lparr> rs_status = 502, rs_body = str16 ''Upstream request failed'',
                                 rs_headers = [] \<rparr>,
                               [(url_href targetUrl, init)])))"

section \<open>Sample documents\<close>


definition refSchema :: "string \<Rightarrow> SchemaObject" where
  "refSchema r =
     SchemaObject None None None None None None None None None None None None None (Some (str16 r))"

text \<open>A schema \<open>Node\<close> whose property \<open>next\<close> refers back to \<open>Node\<close>.\<close>

definition nodeSchema :: SchemaObject where
  "nodeSchema =
     SchemaObject (Some (str16 ''object'')) None
       (Some [(str16 ''next'', refSchema ''#/components/schemas/Node'')])
       None None None None None None None None None None None"

definition nodeTable :: "SchemaObject jsrecord" where
  "nodeTable = [(str16 ''Node'', nodeSchema)]"








text \<open>An operation that declares nothing, and the path item without operations.\<close>

definition emptyOperation :: OperationObject where
  "emptyOperation =
     \<lparr> o_operationId = None, o_tags = None, o_summary = None, o_description = None,
       o_parameters = None, o_requestBody = None, o_responses = [], o_security = None \<rparr>"

definition emptyPathItem :: PathItemObject where
  "emptyPathItem = \<lparr> pi_operation = (\<lambda>method. None), pi_parameters = None \<rparr>"

text \<open>
  The parameter \<open>{name: "id", in: "path"}\<close> of a path and the parameter
  \<open>{name: "id", in: "path", required: true}\<close> of an operation under it.
\<close>

definition idAtPath :: ParameterObject where
  "idAtPath =
     \<lparr> p_name = str16 ''id'', p_in = Path, p_required = None, p_description = None,
       p_schema = None, p_example = None \<rparr>"

definition idAtOperation :: ParameterObject where
  "idAtOperation =
     \<lparr> p_name = str16 ''id'', p_in = Path, p_required = Some True, p_description = None,
       p_schema = None, p_example = None \<rparr>"

definition itemPath :: PathItemObject where
  "itemPath = emptyPathItem \<lparr> pi_parameters := Some [idAtPath] \<rparr>"

definition itemOperation :: OperationObject where
  "itemOperation = emptyOperation \<lparr> o_parameters := Some [idAtOperation] \<rparr>"

text \<open>Operations with an empty and with a non-empty security-requirement list.\<close>

definition openOperation :: OperationObject where
  "openOperation = emptyOperation \<lparr> o_security := Some [] \<rparr>"

definition securedOperation :: OperationObject where
  "securedOperation = emptyOperation \<lparr> o_security := Some [[(str16 ''bearerAuth'', [])]] \<rparr>"

text \<open>
  An operation that declares the responses \<open>"201"\<close> and \<open>"500"\<close> only, each with an
  explicit example on its media entry.
\<close>

definition mediaWith :: "json \<Rightarrow> MediaTypeObject jsrecord" where
  "mediaWith e =
     [(str16 ''application/json'',
       \<lparr> m_schema = None, m_example = Some e, m_examples = None \<rparr>)]"

definition createdOperation :: OperationObject where
  "createdOperation =
     emptyOperation
       \<lparr> o_responses :=
           [(str16 ''201'',
             \<lparr> r_description = None,
               r_content = Some (mediaWith (JStr (str16 ''created''))) \<rparr>),
            (str16 ''500'',
             \<lparr> r_description = None,
               r_content = Some (mediaWith (JStr (str16 ''failed''))) \<rparr>)] \<rparr>"

text \<open>The same, but the \<open>"500"\<close> response declares no content.\<close>

definition createdBareFailure :: OperationObject where
  "createdBareFailure =
     emptyOperation
       \<lparr> o_responses :=
           [(str16 ''201'',
             \<lparr> r_description = None,
               r_content = Some (mediaWith (JStr (str16 ''created''))) \<rparr>),
            (str16 ''500'', \<lparr> r_description = None, r_content = None \<rparr>)] \<rparr>"

text \<open>
  A collation to evaluate the catalog with: the comparison of strings by code units.
\<close>

fun codeUnitCompare :: "jsstring \<Rightarrow> jsstring \<Rightarrow> int" where
  "codeUnitCompare [] [] = 0"
| "codeUnitCompare [] (y # ys) = - 1"
| "codeUnitCompare (x # xs) [] = 1"
| "codeUnitCompare (x # xs) (y # ys) =
     (if x < y then - 1 else if y < x then 1 else codeUnitCompare xs ys)"



text \<open>A document in which two operations declare the same operation identifier.\<close>

definition namedOperation :: "string \<Rightarrow> OperationObject" where
  "namedOperation i = emptyOperation \<lparr> o_operationId := Some (str16 i) \<rparr>"

definition twinSpec :: OpenApiSpec where
  "twinSpec =
     \<lparr> sp_openapi = None, sp_info = None, sp_components = None,
       sp_paths =
         [(str16 ''/a'',
           emptyPathItem
             \<lparr> pi_operation := (\<lambda>method. None)(Get := Some (namedOperation ''list'')) \<rparr>),
          (str16 ''/b'',
           emptyPathItem
             \<lparr> pi_operation := (\<lambda>method. None)(Get := Some (namedOperation ''list'')) \<rparr>)] \<rparr>"

text \<open>
  A runtime to evaluate the relay with. Its URL parser knows the URLs below and has no
  result for any other text; its case mappings are those of the ASCII letters; its
  upstream never answers.
\<close>

definition knownUrls :: "URL jsrecord" where
  "knownUrls =
     [(str16 ''https://evil.example.com/x'',
       \<lparr> url_protocol = str16 ''https:'', url_hostname = str16 ''evil.example.com'',
         url_href = str16 ''https://evil.example.com/x'' \<rparr>),
      (str16 ''http://api.tikhub.io/x'',
       \<lparr> url_protocol = str16 ''http:'', url_hostname = str16 ''api.tikhub.io'',
         url_href = str16 ''http://api.tikhub.io/x'' \<rparr>)]"

definition asciiUpper :: "jsstring \<Rightarrow> jsstring" where
  "asciiUpper s = map (\<lambda>u. if 0x61 \<le> u \<and> u \<le> 0x7A then u - 0x20 else u) s"

definition asciiLower :: "jsstring \<Rightarrow> jsstring" where
  "asciiLower s = map (\<lambda>u. if 0x41 \<le> u \<and> u \<le> 0x5A then u + 0x20 else u) s"

definition sampleRuntime :: Runtime where
  "sampleRuntime =
     \<lparr> URL_new = map_of knownUrls, toUpperCase = asciiUpper, toLowerCase = asciiLower,
       fetch = (\<lambda>url init. Failed) \<rparr>"

definition relayPost :: "ProxyPayload \<Rightarrow> ProxyRequest" where
  "relayPost payload = \<lparr> rq_method = Some (str16 ''POST''), rq_body = Payload payload \<rparr>"

definition payloadFor :: "string \<Rightarrow> ProxyPayload" where
  "payloadFor u =
     \<lparr> pl_url = Some (str16 u), pl_method = Some (str16 ''delete''),
       pl_headers = Some [(str16 ''Host'', str16 ''evil.example.com'')],
       pl_body = Some (str16 ''{}'') \<rparr>"


text \<open>
  A document with two explicit identifiers and one operation without: \<open>/a\<close> with a
  \<open>get\<close> named \<open>listA\<close> and an unnamed \<open>post\<close>, \<open>/b\<close> with a \<open>get\<close> named
  \<open>listB\<close>.
\<close>

definition mixedSpec :: OpenApiSpec where
  "mixedSpec =
     \<lparr> sp_openapi = None, sp_info = None, sp_components = None,
       sp_paths =
         [(str16 ''/a'',
           emptyPathItem
             \<lparr> pi_operation :=
                 (\<lambda>method. None)(Get := Some (namedOperation ''listA''),
                                   Post := Some emptyOperation) \<rparr>),
          (str16 ''/b'',
           emptyPathItem
             \<lparr> pi_operation := (\<lambda>method. None)(Get := Some (namedOperation ''listB'')) \<rparr>)] \<rparr>"

section \<open>Properties of text normalisation\<close>

lemma isCjk_not_space: "isCjk u \<Longrightarrow> \<not> isWhiteSpace u"
  by (auto simp: isCjk_def isWhiteSpace_def word_le_nat_alt)

lemma isCjk_not_slash: "isCjk u \<Longrightarrow> u \<noteq> 0x2F"
  by (auto simp: isCjk_def word_le_nat_alt)

lemma dropWhile_space_cjk:
  assumes "list_all isCjk t"
  shows "dropWhile isWhiteSpace t = t"
  using assms by (cases t) (auto simp: isCjk_not_space)

lemma trim_cjk:
  assumes "list_all isCjk t"
  shows "trim t = t"
proof -
  have "list_all isCjk (rev t)"
    using assms by (simp add: list_all_iff)
  then have "dropWhile isWhiteSpace (rev t) = rev t"
    by (rule dropWhile_space_cjk)
  then show ?thesis
    by (simp add: trim_def dropWhile_space_cjk [OF assms])
qed

lemma split_on_absent: "sep \<notin> set t \<Longrightarrow> split_on sep t = [t]"
  by (induction t) auto

lemma split_on_cjk:
  assumes "list_all isCjk t"
  shows "split_on 0x2F t = [t]"
proof (rule split_on_absent)
  show "0x2F \<notin> set t"
    using assms isCjk_not_slash by (auto simp: list_all_iff)
qed

lemma dropWhile_cjk_all: "list_all isCjk t \<Longrightarrow> dropWhile isCjk t = []"
  by (induction t) auto

lemma replaceRuns_cjk:
  assumes "list_all isCjk t" and "t \<noteq> []"
  shows "replaceRuns isCjk t = [0x20]"
  using assms by (cases t) (auto simp: dropWhile_cjk_all)

lemma collapse_single_space: "trim (replaceRuns isWhiteSpace [0x20]) = []"
  by (simp add: trim_def isWhiteSpace_def)

text \<open>
  Claim C3, as the code has it: a text made only of CJK code units has no \<open>/\<close>
  alternatives, its CJK run is stripped to one space, which collapses and trims to the
  empty string; the empty result is falsy, so the final \<open>stripped || trimmed\<close> returns
  the trimmed input, that is the text itself.
\<close>

theorem englishOnlyText_all_cjk:
  "list_all isCjk t \<Longrightarrow> englishOnlyText t = t"
proof (cases "t = []")
  case True
  then show ?thesis
    by (simp add: englishOnlyText_def trim_def)
next
  case False
  assume cjk: "list_all isCjk t"
  have stripped: "trim (replaceRuns isWhiteSpace (replaceRuns isCjk t)) = []"
    by (simp only: replaceRuns_cjk [OF cjk False] collapse_single_space)
  show ?thesis
    using False
    by (simp add: englishOnlyText_def Let_def trim_cjk [OF cjk] split_on_cjk [OF cjk] stripped)
qed

theorem englishOnlyText_all_cjk_witness:
  "list_all isCjk [0x4EC5, 0x4E2D, 0x6587]
   \<and> englishOnlyText [0x4EC5, 0x4E2D, 0x6587] = [0x4EC5, 0x4E2D, 0x6587]"
proof -
  have h: "list_all isCjk [0x4EC5, 0x4E2D, 0x6587]"
    by (simp add: isCjk_def)
  show ?thesis
    using h englishOnlyText_all_cjk [OF h] by simp
qed

text \<open>
  Claim C3 as the specification states it fails: the text U+4EC5 U+4E2D U+6587 has no
  \<open>/\<close> and is all CJK, and the result is not the empty string.
\<close>

theorem englishOnlyText_cjk_counterexample:
  "list_all isCjk [0x4EC5, 0x4E2D, 0x6587]
   \<and> 0x2F \<notin> set [0x4EC5, 0x4E2D, 0x6587 :: 16 word]
   \<and> englishOnlyText [0x4EC5, 0x4E2D, 0x6587] \<noteq> []"
proof -
  have h: "list_all isCjk [0x4EC5, 0x4E2D, 0x6587]"
    by (simp add: isCjk_def)
  have "englishOnlyText [0x4EC5, 0x4E2D, 0x6587] = [0x4EC5, 0x4E2D, 0x6587]"
    by (simp add: englishOnlyText_def Let_def trim_def isWhiteSpace_def isCjk_def)
  then show ?thesis
    using h by simp
qed

section \<open>Properties of example synthesis\<close>

subsection \<open>Termination and the depth cap\<close>

lemma buildExample_call_depth:
  "buildExampleFromSchema_rel (schema', schemas', depth') (schema, schemas, depth) \<Longrightarrow>
     depth \<le> 5 \<and> depth' = depth + 1 \<and> schemas' = schemas"
  by (erule buildExampleFromSchema_rel.cases) auto

lemma buildExample_past_cap:
  "5 < depth \<Longrightarrow> buildExampleFromSchema schema schemas depth = JObj []"
  by (simp add: buildExampleFromSchema.simps split: option.splits)

lemma buildExample_total: "buildExampleFromSchema_dom (schema, schemas, depth)"
proof -
  have "wfp buildExampleFromSchema_rel"
  proof (rule wfp_if_convertible_to_nat [of _ "\<lambda>(schema, schemas, depth). 6 - depth"])
    fix x y :: "SchemaObject option \<times> SchemaObject jsrecord \<times> nat"
    assume "buildExampleFromSchema_rel x y"
    then show "(case x of (schema, schemas, depth) \<Rightarrow> 6 - depth)
               < (case y of (schema, schemas, depth) \<Rightarrow> 6 - depth)"
      by (cases x, cases y) (auto dest: buildExample_call_depth)
  qed
  then show ?thesis
    by (rule accp_wfpD)
qed

text \<open>
  Claim C5. \<open>buildExampleFromSchema_dom\<close> is the set of arguments from which the
  recursive calls of the definition are well-founded, and
  \<open>buildExampleFromSchema_rel\<close> is its call relation: synthesis terminates on every
  schema and table, self-referential or not; a call recurses only from a depth of at
  most 5, one level deeper each time; and past the cap the result is the empty object.
\<close>

theorem buildExample_terminates_capped:
  "buildExampleFromSchema_dom (schema, schemas, depth)
   \<and> (\<forall>schema' schemas' depth'.
         buildExampleFromSchema_rel (schema', schemas', depth') (schema, schemas, depth)
           \<longrightarrow> depth \<le> 5 \<and> depth' = depth + 1)
   \<and> (5 < depth \<longrightarrow> buildExampleFromSchema schema schemas depth = JObj [])"
  using buildExample_total buildExample_call_depth buildExample_past_cap by blast

lemma getRefName_node: "getRefName (str16 ''#/components/schemas/Node'') = str16 ''Node''"
  by (simp add: getRefName_def str16_def)

lemma resolve_node:
  "resolveSchema (Some (refSchema ''#/components/schemas/Node'')) nodeTable = Some nodeSchema"
  by (simp add: resolveSchema_def refSchema_def getRefName_node nodeTable_def)
     (simp add: str16_def)

lemma build_node_step:
  "d \<le> 5 \<Longrightarrow> d' = d + 1 \<Longrightarrow>
     buildExampleFromSchema (Some (refSchema ''#/components/schemas/Node'')) nodeTable d
     = JObj [(str16 ''next'',
              buildExampleFromSchema (Some (refSchema ''#/components/schemas/Node''))
                nodeTable d')]"
  by (subst buildExampleFromSchema.simps)
     (simp add: resolve_node, simp add: nodeSchema_def elems_def)

text \<open>
  At the self-referential schema \<open>Node\<close>: the call at depth 0 is in the domain, the
  call at depth 6 returns the empty object, and the whole synthesis is six nested
  objects closed by the empty one.
\<close>

theorem buildExample_terminates_capped_witness:
  "buildExampleFromSchema_dom (Some (refSchema ''#/components/schemas/Node''), nodeTable, 0)
   \<and> buildExampleFromSchema (Some (refSchema ''#/components/schemas/Node'')) nodeTable 6
       = JObj []
   \<and> buildExampleFromSchema (Some (refSchema ''#/components/schemas/Node'')) nodeTable 0
       = JObj [(str16 ''next'', JObj [(str16 ''next'', JObj [(str16 ''next'',
           JObj [(str16 ''next'', JObj [(str16 ''next'', JObj [(str16 ''next'',
             JObj [])])])])])])]"
proof -
  have six: "(5::nat) < 6" by simp
  have cap: "buildExampleFromSchema (Some (refSchema ''#/components/schemas/Node'')) nodeTable 6
             = JObj []"
    using buildExample_terminates_capped
            [of "Some (refSchema ''#/components/schemas/Node'')" nodeTable 6] six
    by blast
  have dom: "buildExampleFromSchema_dom
               (Some (refSchema ''#/components/schemas/Node''), nodeTable, 0)"
    using buildExample_terminates_capped
            [of "Some (refSchema ''#/components/schemas/Node'')" nodeTable 0]
    by blast
  have s5: "buildExampleFromSchema (Some (refSchema ''#/components/schemas/Node'')) nodeTable 5
      = JObj [(str16 ''next'', buildExampleFromSchema (Some (refSchema ''#/components/schemas/Node'')) nodeTable 6)]"
    by (rule build_node_step) simp_all
  have v5: "buildExampleFromSchema (Some (refSchema ''#/components/schemas/Node'')) nodeTable 5
      = JObj [(str16 ''next'', JObj [])]"
    by (simp only: s5 cap)
  have s4: "buildExampleFromSchema (Some (refSchema ''#/components/schemas/Node'')) nodeTable 4
      = JObj [(str16 ''next'', buildExampleFromSchema (Some (refSchema ''#/components/schemas/Node'')) nodeTable 5)]"
    by (rule build_node_step) simp_all
  have v4: "buildExampleFromSchema (Some (refSchema ''#/components/schemas/Node'')) nodeTable 4
      = JObj [(str16 ''next'', JObj [(str16 ''next'', JObj [])])]"
    by (simp only: s4 v5)
  have s3: "buildExampleFromSchema (Some (refSchema ''#/components/schemas/Node'')) nodeTable 3
      = JObj [(str16 ''next'', buildExampleFromSchema (Some (refSchema ''#/components/schemas/Node'')) nodeTable 4)]"
    by (rule build_node_step) simp_all
  have v3: "buildExampleFromSchema (Some (refSchema ''#/components/schemas/Node'')) nodeTable 3
      = JObj [(str16 ''next'', JObj [(str16 ''next'', JObj [(str16 ''next'', JObj [])])])]"
    by (simp only: s3 v4)
  have s2: "buildExampleFromSchema (Some (refSchema ''#/components/schemas/Node'')) nodeTable 2
      = JObj [(str16 ''next'', buildExampleFromSchema (Some (refSchema ''#/components/schemas/Node'')) nodeTable 3)]"
    by (rule build_node_step) simp_all
  have v2: "buildExampleFromSchema (Some (refSchema ''#/components/schemas/Node'')) nodeTable 2
      = JObj [(str16 ''next'', JObj [(str16 ''next'', JObj [(str16 ''next'', JObj [(str16 ''next'', JObj [])])])])]"
    by (simp only: s2 v3)
  have s1: "buildExampleFromSchema (Some (refSchema ''#/components/schemas/Node'')) nodeTable 1
      = JObj [(str16 ''next'', buildExampleFromSchema (Some (refSchema ''#/components/schemas/Node'')) nodeTable 2)]"
    by (rule build_node_step) simp_all
  have v1: "buildExampleFromSchema (Some (refSchema ''#/components/schemas/Node'')) nodeTable 1
      = JObj [(str16 ''next'', JObj [(str16 ''next'', JObj [(str16 ''next'', JObj [(str16 ''next'', JObj [(str16 ''next'', JObj [])])])])])]"
    by (simp only: s1 v2)
  have s0: "buildExampleFromSchema (Some (refSchema ''#/components/schemas/Node'')) nodeTable 0
      = JObj [(str16 ''next'', buildExampleFromSchema (Some (refSchema ''#/components/schemas/Node'')) nodeTable 1)]"
    by (rule build_node_step) simp_all
  have v0: "buildExampleFromSchema (Some (refSchema ''#/components/schemas/Node'')) nodeTable 0
      = JObj [(str16 ''next'', JObj [(str16 ''next'', JObj [(str16 ''next'', JObj [(str16 ''next'', JObj [(str16 ''next'', JObj [(str16 ''next'', JObj [])])])])])])]"
    by (simp only: s0 v1)
  show ?thesis
    using dom cap v0 by (intro conjI)
qed

subsection \<open>Priority order\<close>










section \<open>Properties of the operation normalizer\<close>

subsection \<open>Parameter deduplication\<close>

lemma findIndex_None: "findIndex P xs = None \<Longrightarrow> find P xs = None"
  by (induction xs) (auto split: if_splits)

lemma findIndex_Some:
  "findIndex P xs = Some i \<Longrightarrow> i < length xs \<and> P (xs ! i) \<and> find P xs = Some (xs ! i)"
proof (induction xs arbitrary: i)
  case Nil
  then show ?case by simp
next
  case (Cons x xs)
  then show ?case
    by (cases "P x") auto
qed

lemma filter_enumerate_index:
  "filter (\<lambda>(i, p). Q p \<and> i = i0) (enumerate n xs)
     = (if n \<le> i0 \<and> i0 < n + length xs \<and> Q (xs ! (i0 - n))
        then [(i0, xs ! (i0 - n))] else [])"
proof (induction xs arbitrary: n)
  case Nil
  then show ?case by simp
next
  case (Cons x xs)
  show ?case
  proof (cases "i0 = n")
    case True
    then show ?thesis
      using Cons.IH [of "Suc n"] by simp
  next
    case False
    then show ?thesis
      using Cons.IH [of "Suc n"] by (auto simp: Suc_diff_le)
  qed
qed

lemma uniqueParameters_filter:
  fixes n :: jsstring and l :: ParamLocation
  defines "P \<equiv> \<lambda>c :: ParameterObject. p_name c = n \<and> p_in c = l"
  shows "filter P (uniqueParameters merged)
           = (case find P merged of None \<Rightarrow> [] | Some p \<Rightarrow> [p])"
proof -
  have same: "(\<lambda>candidate :: ParameterObject. p_name candidate = p_name p \<and> p_in candidate = p_in p) = P"
    if "P p" for p
    using that by (auto simp: P_def)
  have "filter P (uniqueParameters merged)
          = map snd (filter (\<lambda>(i, p). P p \<and> findIndex P merged = Some i) (enumerate 0 merged))"
    unfolding uniqueParameters_def filter_map filter_filter
    by (rule arg_cong [where f = "map snd"], rule filter_cong) (auto simp: same)
  also have "\<dots> = (case find P merged of None \<Rightarrow> [] | Some p \<Rightarrow> [p])"
  proof (cases "findIndex P merged")
    case None
    then show ?thesis
      by (simp add: findIndex_None)
  next
    case (Some i0)
    have "filter (\<lambda>(i, p). P p \<and> findIndex P merged = Some i) (enumerate 0 merged)
            = filter (\<lambda>(i, p). P p \<and> i = i0) (enumerate 0 merged)"
      by (rule filter_cong) (auto simp: Some)
    then show ?thesis
      using findIndex_Some [OF Some] by (simp add: filter_enumerate_index)
  qed
  finally show ?thesis .
qed

lemma find_append_first: "find P xs = Some p \<Longrightarrow> find P (xs @ ys) = Some p"
  by (induction xs) (auto split: if_splits)

text \<open>
  Claim C1, as the code has it. The merged list is the path-level parameters followed by
  the operation-level ones, and the filter keeps the first entry of each (name, location)
  pair. So when the path level declares the pair, whatever the operation level declares,
  the normalized operation has exactly one parameter for it, made from the first
  path-level declaration; its \<open>required\<close> flag is that declaration's.
\<close>

theorem first_declaration_wins:
  assumes "find (\<lambda>c. p_name c = n \<and> p_in c = l) (elems (pi_parameters pathItem)) = Some p"
  shows "filter (\<lambda>q. pp_name q = n \<and> pp_location q = l)
           (po_parameters (parseOperation schemas path pathItem method op))
         = [parsedParameter schemas p]
         \<and> pp_required (parsedParameter schemas p) = (p_required p = Some True)"
proof -
  have merged: "find (\<lambda>c. p_name c = n \<and> p_in c = l) (mergedParameters pathItem op) = Some p"
    unfolding mergedParameters_def by (rule find_append_first) (rule assms)
  have "filter (\<lambda>q. pp_name q = n \<and> pp_location q = l)
          (map (parsedParameter schemas) (uniqueParameters (mergedParameters pathItem op)))
        = map (parsedParameter schemas)
            (filter (\<lambda>c. p_name c = n \<and> p_in c = l)
               (uniqueParameters (mergedParameters pathItem op)))"
    by (simp add: filter_map comp_def parsedParameter_def Let_def)
  also have "\<dots> = [parsedParameter schemas p]"
    by (simp add: uniqueParameters_filter merged)
  finally show ?thesis
    by (auto simp add: parseOperation_def Let_def parsedParameter_def split: option.splits)
qed

theorem first_declaration_wins_witness:
  "filter (\<lambda>q. pp_name q = str16 ''id'' \<and> pp_location q = Path)
     (po_parameters (parseOperation [] (str16 ''/items/{id}'') itemPath Get itemOperation))
   = [parsedParameter [] idAtPath]
   \<and> pp_required (parsedParameter [] idAtPath) = False"
proof -
  have h: "find (\<lambda>c. p_name c = str16 ''id'' \<and> p_in c = Path) (elems (pi_parameters itemPath))
           = Some idAtPath"
    by (simp add: itemPath_def emptyPathItem_def elems_def idAtPath_def)
  show ?thesis
    using first_declaration_wins [OF h, of "[]" "str16 ''/items/{id}''" Get itemOperation]
    by (simp add: idAtPath_def)
qed

text \<open>
  Claim C1 as the specification states it fails: with \<open>{name: "id", in: "path"}\<close> at
  the path and \<open>{name: "id", in: "path", required: true}\<close> at the operation, the one
  \<open>id\<close> parameter of the normalized operation has \<open>required = false\<close>.
\<close>

theorem operation_level_wins_counterexample:
  "elems (pi_parameters itemPath) = [idAtPath]
   \<and> elems (o_parameters itemOperation) = [idAtOperation]
   \<and> map pp_required
       (filter (\<lambda>q. pp_name q = str16 ''id'' \<and> pp_location q = Path)
          (po_parameters (parseOperation [] (str16 ''/items/{id}'') itemPath Get itemOperation)))
     = [False]"
  by (simp add: parseOperation_def Let_def mergedParameters_def uniqueParameters_def
        parsedParameter_def itemPath_def itemOperation_def emptyPathItem_def
        emptyOperation_def elems_def idAtPath_def idAtOperation_def)

subsection \<open>The authentication flag\<close>

text \<open>
  Claim C2, as the code has it: \<open>Boolean(op.security)\<close> is true for every array, the
  empty one too, so the flag says whether the operation declares a security field.
\<close>

theorem requiresAuth_iff_security_declared:
  "po_requiresAuth (parseOperation schemas path pathItem method op) = (o_security op \<noteq> None)"
  by (simp add: parseOperation_def Let_def split: option.splits)

theorem requiresAuth_iff_security_declared_witness:
  "po_requiresAuth (parseOperation [] (str16 ''/a'') emptyPathItem Get securedOperation)
   \<and> \<not> po_requiresAuth (parseOperation [] (str16 ''/a'') emptyPathItem Get emptyOperation)"
  using requiresAuth_iff_security_declared [of "[]" "str16 ''/a''" emptyPathItem Get securedOperation]
        requiresAuth_iff_security_declared [of "[]" "str16 ''/a''" emptyPathItem Get emptyOperation]
  by (simp add: securedOperation_def emptyOperation_def)

text \<open>
  Claim C2 as the specification states it fails: an operation that declares the empty
  security list has \<open>requiresAuth = true\<close>.
\<close>

theorem requiresAuth_empty_security_counterexample:
  "o_security openOperation = Some []
   \<and> po_requiresAuth (parseOperation [] (str16 ''/a'') emptyPathItem Get openOperation) = True"
  by (simp add: parseOperation_def Let_def openOperation_def emptyOperation_def)

subsection \<open>Response codes and examples\<close>

lemma find_first_split:
  "\<not> list_ex P pre \<Longrightarrow> P c \<Longrightarrow> find P (pre @ c # post) = Some c"
  by (induction pre) auto

lemma find_None_list_ex: "\<not> list_ex P xs \<Longrightarrow> find P xs = None"
  by (induction xs) auto

lemma getExampleFromMedia_declared:
  "\<exists>v. getExampleFromMedia (Some (m # ms)) schemas = Some v"
  by (cases m) (simp add: getExampleFromMedia_def split: option.splits list.splits)

lemma responseExample_preferred:
  assumes "map_of responses c = Some r" and "r_content r = Some (m # ms)"
  shows "Some (responseExample responses c schemas) = getExampleFromMedia (r_content r) schemas"
proof -
  obtain v where "getExampleFromMedia (r_content r) schemas = Some v"
    using getExampleFromMedia_declared [of m ms schemas] assms(2) by auto
  then show ?thesis
    using assms(1) by (simp add: responseExample_def Let_def)
qed

lemma responseExample_fallback:
  assumes "map_of responses c = None
           \<or> (\<exists>r. map_of responses c = Some r \<and> (r_content r = None \<or> r_content r = Some []))"
  shows "responseExample responses c schemas
         = (case responses of
              [] \<Rightarrow> JObj []
            | (_, f) # _ \<Rightarrow>
               (case getExampleFromMedia (r_content f) schemas of
                  Some v \<Rightarrow> v
                | None \<Rightarrow> JObj []))"
proof -
  have "getExampleFromMedia (case map_of responses c of None \<Rightarrow> None | Some p \<Rightarrow> r_content p)
          schemas = None"
    using assms by (auto simp: getExampleFromMedia_def)
  then show ?thesis
    by (cases responses) (auto simp: responseExample_def Let_def getExampleFromMedia_def)
qed

text \<open>
  Claim C8, as the code has it. The success code is \<open>"200"\<close> when declared, else the
  first declared code; the error code is \<open>"422"\<close> when declared, else the first
  declared code that starts with \<open>4\<close> or \<open>5\<close>, else the success code; with only
  \<open>"201"\<close> and \<open>"500"\<close> declared they are \<open>"201"\<close> and \<open>"500"\<close>. Each example is
  \<open>responseExample\<close> at its code: it is taken from the response of that code when that
  response declares a content with a media entry; when the code is not declared, or its
  response has no content or an empty one, it is the \<open>fallback\<close>: the example of the
  first declared response, or the empty object.
\<close>

theorem response_example_codes:
  fixes op :: OperationObject and schemas :: "SchemaObject jsrecord" and path :: jsstring
    and pathItem :: PathItemObject and httpMethod :: HttpMethod
  defines "codes \<equiv> map fst (o_responses op)"
  defines "parsed \<equiv> parseOperation schemas path pathItem httpMethod op"
  defines "isError \<equiv> \<lambda>code. startsWith code 0x34 \<or> startsWith code 0x35"
  defines "fallback \<equiv>
             (case o_responses op of
                [] \<Rightarrow> JObj []
              | (_, f) # _ \<Rightarrow>
                 (case getExampleFromMedia (r_content f) schemas of
                    Some v \<Rightarrow> v
                  | None \<Rightarrow> JObj []))"
  shows
    "po_responseCodes parsed = codes
     \<and> po_successExample parsed = responseExample (o_responses op) (successCode codes) schemas
     \<and> po_errorExample parsed = responseExample (o_responses op) (errorCode codes) schemas
     \<and> (str16 ''200'' \<in> set codes \<longrightarrow> successCode codes = str16 ''200'')
     \<and> (str16 ''200'' \<notin> set codes \<and> codes \<noteq> [] \<longrightarrow> successCode codes = hd codes)
     \<and> (str16 ''422'' \<in> set codes \<longrightarrow> errorCode codes = str16 ''422'')
     \<and> (str16 ''422'' \<notin> set codes \<longrightarrow>
          (\<forall>pre c post. codes = pre @ c # post \<and> \<not> list_ex isError pre \<and> isError c
             \<longrightarrow> errorCode codes = c)
          \<and> (\<not> list_ex isError codes \<longrightarrow> errorCode codes = successCode codes))
     \<and> (codes = [str16 ''201'', str16 ''500''] \<longrightarrow>
          successCode codes = str16 ''201'' \<and> errorCode codes = str16 ''500'')
     \<and> (\<forall>r m ms. map_of (o_responses op) (successCode codes) = Some r
                    \<and> r_content r = Some (m # ms) \<longrightarrow>
          Some (po_successExample parsed) = getExampleFromMedia (r_content r) schemas)
     \<and> (\<forall>r m ms. map_of (o_responses op) (errorCode codes) = Some r
                    \<and> r_content r = Some (m # ms) \<longrightarrow>
          Some (po_errorExample parsed) = getExampleFromMedia (r_content r) schemas)
     \<and> (map_of (o_responses op) (successCode codes) = None
          \<or> (\<exists>r. map_of (o_responses op) (successCode codes) = Some r
                   \<and> (r_content r = None \<or> r_content r = Some [])) \<longrightarrow>
          po_successExample parsed = fallback)
     \<and> (map_of (o_responses op) (errorCode codes) = None
          \<or> (\<exists>r. map_of (o_responses op) (errorCode codes) = Some r
                   \<and> (r_content r = None \<or> r_content r = Some [])) \<longrightarrow>
          po_errorExample parsed = fallback)"
proof -
  have fields: "po_responseCodes parsed = codes
     \<and> po_successExample parsed = responseExample (o_responses op) (successCode codes) schemas
     \<and> po_errorExample parsed = responseExample (o_responses op) (errorCode codes) schemas"
    by (simp add: parsed_def codes_def parseOperation_def Let_def)
  have success: "(str16 ''200'' \<in> set codes \<longrightarrow> successCode codes = str16 ''200'')
     \<and> (str16 ''200'' \<notin> set codes \<and> codes \<noteq> [] \<longrightarrow> successCode codes = hd codes)"
    by (cases codes) (simp_all add: successCode_def)
  have e422: "str16 ''422'' \<in> set codes \<longrightarrow> errorCode codes = str16 ''422''"
    by (simp add: errorCode_def)
  have first: "errorCode codes = c"
    if "str16 ''422'' \<notin> set codes" "codes = pre @ c # post" "\<not> list_ex isError pre" "isError c"
    for pre c post
  proof -
    have "find isError codes = Some c"
      unfolding that(2) using that(3,4) by (rule find_first_split)
    then show ?thesis
      using that(1) by (simp add: errorCode_def isError_def)
  qed
  have none: "errorCode codes = successCode codes"
    if "str16 ''422'' \<notin> set codes" "\<not> list_ex isError codes"
    using that find_None_list_ex [of isError codes] by (simp add: errorCode_def isError_def)
  have particular: "codes = [str16 ''201'', str16 ''500''] \<longrightarrow>
          successCode codes = str16 ''201'' \<and> errorCode codes = str16 ''500''"
    by (simp add: successCode_def errorCode_def startsWith_def str16_def)
  have err: "str16 ''422'' \<notin> set codes \<longrightarrow>
          (\<forall>pre c post. codes = pre @ c # post \<and> \<not> list_ex isError pre \<and> isError c
             \<longrightarrow> errorCode codes = c)
          \<and> (\<not> list_ex isError codes \<longrightarrow> errorCode codes = successCode codes)"
    using first none by blast
  have taken: "\<forall>r m ms. map_of (o_responses op) c = Some r \<and> r_content r = Some (m # ms) \<longrightarrow>
          Some (responseExample (o_responses op) c schemas)
            = getExampleFromMedia (r_content r) schemas" for c
    using responseExample_preferred [of "o_responses op" c] by blast
  have fromSuccess: "\<forall>r m ms. map_of (o_responses op) (successCode codes) = Some r
                    \<and> r_content r = Some (m # ms) \<longrightarrow>
          Some (po_successExample parsed) = getExampleFromMedia (r_content r) schemas"
    using taken [of "successCode codes"] fields by simp
  have fromError: "\<forall>r m ms. map_of (o_responses op) (errorCode codes) = Some r
                    \<and> r_content r = Some (m # ms) \<longrightarrow>
          Some (po_errorExample parsed) = getExampleFromMedia (r_content r) schemas"
    using taken [of "errorCode codes"] fields by simp
  have backSuccess: "map_of (o_responses op) (successCode codes) = None
          \<or> (\<exists>r. map_of (o_responses op) (successCode codes) = Some r
                   \<and> (r_content r = None \<or> r_content r = Some [])) \<longrightarrow>
          po_successExample parsed = fallback"
    unfolding fallback_def using responseExample_fallback [of "o_responses op" "successCode codes"]
      fields by simp
  have backError: "map_of (o_responses op) (errorCode codes) = None
          \<or> (\<exists>r. map_of (o_responses op) (errorCode codes) = Some r
                   \<and> (r_content r = None \<or> r_content r = Some [])) \<longrightarrow>
          po_errorExample parsed = fallback"
    unfolding fallback_def using responseExample_fallback [of "o_responses op" "errorCode codes"]
      fields by simp
  show ?thesis
    using fields success e422 err particular fromSuccess fromError backSuccess backError
    by (intro conjI) blast+
qed

text \<open>
  At an operation whose \<open>"201"\<close> and \<open>"500"\<close> responses both carry an example.
\<close>

theorem response_example_codes_witness:
  "po_responseCodes (parseOperation [] (str16 ''/items'') emptyPathItem Post createdOperation)
     = [str16 ''201'', str16 ''500'']
   \<and> successCode [str16 ''201'', str16 ''500''] = str16 ''201''
   \<and> errorCode [str16 ''201'', str16 ''500''] = str16 ''500''
   \<and> po_successExample (parseOperation [] (str16 ''/items'') emptyPathItem Post createdOperation)
       = JStr (str16 ''created'')
   \<and> po_errorExample (parseOperation [] (str16 ''/items'') emptyPathItem Post createdOperation)
       = JStr (str16 ''failed'')"
proof -
  have codes: "map fst (o_responses createdOperation) = [str16 ''201'', str16 ''500'']"
    by (simp add: createdOperation_def emptyOperation_def)
  have ex201: "responseExample (o_responses createdOperation) (str16 ''201'') []
               = JStr (str16 ''created'')"
    by (simp add: responseExample_def getExampleFromMedia_def createdOperation_def
          emptyOperation_def mediaWith_def Let_def)
  have ex500: "responseExample (o_responses createdOperation) (str16 ''500'') []
               = JStr (str16 ''failed'')"
    by (simp add: responseExample_def getExampleFromMedia_def createdOperation_def
          emptyOperation_def mediaWith_def Let_def str16_def)
  show ?thesis
    using response_example_codes [of "[]" "str16 ''/items''" emptyPathItem Post createdOperation]
      ex201 ex500
    by (simp only: codes)
qed


text \<open>
  Claim C8 as the specification states it fails: with \<open>"201"\<close> and \<open>"500"\<close> declared
  and no content under \<open>"500"\<close>, the error code is \<open>"500"\<close> but the error example is
  the example of the \<open>"201"\<close> response, the first declared one.
\<close>

theorem error_example_source_counterexample:
  "map fst (o_responses createdBareFailure) = [str16 ''201'', str16 ''500'']
   \<and> errorCode (map fst (o_responses createdBareFailure)) = str16 ''500''
   \<and> po_errorExample
        (parseOperation [] (str16 ''/items'') emptyPathItem Post createdBareFailure)
       = JStr (str16 ''created'')
   \<and> getExampleFromMedia (r_content (snd (o_responses createdBareFailure ! 0))) []
       = Some (JStr (str16 ''created''))
   \<and> getExampleFromMedia (r_content (snd (o_responses createdBareFailure ! 1))) [] = None"
  by (simp add: parseOperation_def Let_def responseExample_def getExampleFromMedia_def
        errorCode_def successCode_def startsWith_def createdBareFailure_def
        emptyOperation_def mediaWith_def str16_def)

section \<open>Properties of the catalog\<close>

subsection \<open>The sort\<close>

lemma set_insertSorted: "set (insertSorted cmp x ys) = insert x (set ys)"
proof (induction ys)
  case Nil
  then show ?case by simp
next
  case (Cons y ys)
  show ?case
  proof (cases "cmp x y \<le> 0")
    case True
    then show ?thesis by simp
  next
    case False
    then have "set (insertSorted cmp x (y # ys)) = insert y (set (insertSorted cmp x ys))"
      by simp
    also have "\<dots> = insert y (insert x (set ys))"
      by (simp only: Cons.IH)
    also have "\<dots> = insert x (set (y # ys))"
      by (simp only: list.set insert_commute [of y x])
    finally show ?thesis .
  qed
qed

lemma set_sortWith: "set (sortWith cmp xs) = set xs"
  by (induction xs) (simp_all add: sortWith_def set_insertSorted)













subsection \<open>Operation identifiers\<close>

lemma distinct_map_insertSorted:
  "distinct (map f (insertSorted cmp x ys)) = (f x \<notin> f ` set ys \<and> distinct (map f ys))"
proof (induction ys)
  case Nil
  then show ?case by simp
next
  case (Cons y ys)
  show ?case
  proof (cases "cmp x y \<le> 0")
    case True
    then show ?thesis by simp
  next
    case False
    then have "distinct (map f (insertSorted cmp x (y # ys)))
                 = (f y \<notin> f ` set (insertSorted cmp x ys)
                    \<and> distinct (map f (insertSorted cmp x ys)))"
      by simp
    also have "\<dots> = (f y \<notin> f ` insert x (set ys) \<and> f x \<notin> f ` set ys \<and> distinct (map f ys))"
      by (simp only: Cons.IH set_insertSorted)
    also have "\<dots> = (f x \<notin> f ` set (y # ys) \<and> distinct (map f (y # ys)))"
      by auto
    finally show ?thesis .
  qed
qed

lemma distinct_map_sortWith: "distinct (map f (sortWith cmp xs)) = distinct (map f xs)"
proof (induction xs)
  case Nil
  then show ?case by (simp add: sortWith_def)
next
  case (Cons x xs)
  have "distinct (map f (sortWith cmp (x # xs)))
          = distinct (map f (insertSorted cmp x (sortWith cmp xs)))"
    by (simp only: sortWith_def foldr.simps comp_apply)
  also have "\<dots> = (f x \<notin> f ` set xs \<and> distinct (map f xs))"
    by (simp only: distinct_map_insertSorted set_sortWith Cons.IH)
  finally show ?case by simp
qed

lemma methodName_no_underscore: "0x5F \<notin> set (methodName m)"
  by (cases m) (simp_all add: str16_def)

lemma methodName_inj: "methodName m = methodName m' \<Longrightarrow> m = m'"
  by (cases m; cases m') (simp_all add: str16_def)

lemma takeWhile_prefix:
  "\<forall>x\<in>set xs. P x \<Longrightarrow> \<not> P y \<Longrightarrow> takeWhile P (xs @ y # ys) = xs"
  by (induction xs) simp_all

lemma dropWhile_prefix:
  "\<forall>x\<in>set xs. P x \<Longrightarrow> \<not> P y \<Longrightarrow> dropWhile P (xs @ y # ys) = y # ys"
  by (induction xs) simp_all

lemma synthesized_method:
  "takeWhile (\<lambda>u. u \<noteq> 0x5F) (methodName m @ [0x5F] @ path) = methodName m"
proof -
  have "takeWhile (\<lambda>u. u \<noteq> 0x5F) (methodName m @ 0x5F # path) = methodName m"
    using methodName_no_underscore [of m] by (intro takeWhile_prefix) auto
  then show ?thesis by simp
qed

lemma synthesized_path:
  "tl (dropWhile (\<lambda>u. u \<noteq> 0x5F) (methodName m @ [0x5F] @ path)) = path"
proof -
  have "dropWhile (\<lambda>u. u \<noteq> 0x5F) (methodName m @ 0x5F # path) = 0x5F # path"
    using methodName_no_underscore [of m] by (intro dropWhile_prefix) auto
  then show ?thesis by simp
qed

lemma synthesized_inj:
  assumes "methodName m @ [0x5F] @ path = methodName m' @ [0x5F] @ path'"
  shows "m = m' \<and> path = path'"
proof -
  have "methodName m = methodName m'"
    using synthesized_method [of m path] synthesized_method [of m' path'] assms by simp
  moreover have "path = path'"
    using synthesized_path [of m path] synthesized_path [of m' path'] assms by simp
  ultimately show ?thesis
    by (simp add: methodName_inj)
qed


lemma parsed_id:
  "po_id (parseOperation schemas path pathItem m op)
     = (case o_operationId op of Some i \<Rightarrow> i | None \<Rightarrow> methodName m @ [0x5F] @ path)"
  by (simp add: parseOperation_def Let_def)

lemma walk_ids:
  "map po_id (walkOperations spec)
     = map (\<lambda>(path, pathItem, m, op).
              case o_operationId op of Some i \<Rightarrow> i | None \<Rightarrow> methodName m @ [0x5F] @ path)
         (declaredOperations spec)"
  by (simp add: walkOperations_def Let_def parsed_id case_prod_unfold comp_def)

lemma mixed_ids_distinct:
  fixes e :: "'a \<Rightarrow> 'b option" and g :: "'a \<Rightarrow> 'b"
  shows "set (map (\<lambda>x. case e x of Some i \<Rightarrow> i | None \<Rightarrow> g x) xs)
           = set (List.map_filter e xs) \<union> set (map g (filter (\<lambda>x. e x = None) xs))
         \<and> distinct (map (\<lambda>x. case e x of Some i \<Rightarrow> i | None \<Rightarrow> g x) xs)
           = (distinct (List.map_filter e xs)
              \<and> distinct (map g (filter (\<lambda>x. e x = None) xs))
              \<and> set (List.map_filter e xs) \<inter> set (map g (filter (\<lambda>x. e x = None) xs)) = {})"
proof (induction xs)
  case Nil
  then show ?case by (simp add: List.map_filter_simps)
next
  case (Cons x xs)
  show ?case
  proof (cases "e x")
    case None
    with Cons show ?thesis
      by (simp add: List.map_filter_simps) blast
  next
    case (Some i)
    with Cons show ?thesis
      by (simp add: List.map_filter_simps) blast
  qed
qed

lemma item_keys:
  "map (\<lambda>x. (fst x, fst (snd (snd x))))
     (List.map_filter
        (\<lambda>method. case pi_operation pathItem method of
                     None \<Rightarrow> None
                   | Some op \<Rightarrow> Some (path, pathItem, method, op))
        ms)
   = map (Pair path) (filter (\<lambda>m. pi_operation pathItem m \<noteq> None) ms)"
proof (induction ms)
  case Nil
  then show ?case by (simp add: List.map_filter_simps)
next
  case (Cons m ms)
  then show ?case
    by (cases "pi_operation pathItem m") (simp_all add: List.map_filter_simps)
qed

lemma declared_keys_distinct:
  fixes paths :: "PathItemObject jsrecord"
  defines "visits \<equiv> \<lambda>(path, pathItem).
             List.map_filter
               (\<lambda>method. case pi_operation pathItem method of
                            None \<Rightarrow> None
                          | Some op \<Rightarrow> Some (path, pathItem, method, op))
               SUPPORTED_METHODS"
  defines "key \<equiv> \<lambda>x :: jsstring \<times> PathItemObject \<times> HttpMethod \<times> OperationObject.
             (fst x, fst (snd (snd x)))"
  assumes "distinct (map fst paths)"
  shows "distinct (map key (concat (map visits paths)))
         \<and> (\<forall>k\<in>set (map key (concat (map visits paths))). fst k \<in> fst ` set paths)"
  using assms(3)
proof (induction paths)
  case Nil
  then show ?case by simp
next
  case (Cons p ps)
  obtain path pathItem where p: "p = (path, pathItem)"
    by (cases p)
  have here: "map key (visits p)
              = map (Pair path) (filter (\<lambda>m. pi_operation pathItem m \<noteq> None) SUPPORTED_METHODS)"
    unfolding visits_def key_def p using item_keys [of path pathItem SUPPORTED_METHODS]
    by (simp only: prod.case)
  have methods: "distinct (filter (\<lambda>m. pi_operation pathItem m \<noteq> None) SUPPORTED_METHODS)"
    by (rule distinct_filter) (simp add: SUPPORTED_METHODS_def)
  have "inj_on (Pair path) A" for A :: "HttpMethod set"
    by (rule inj_onI) simp
  with methods have dist_here: "distinct (map key (visits p))"
    unfolding here by (simp only: distinct_map)
  have fst_here: "\<forall>k\<in>set (map key (visits p)). fst k = path"
    unfolding here by simp
  have rest: "distinct (map key (concat (map visits ps)))"
             "\<forall>k\<in>set (map key (concat (map visits ps))). fst k \<in> fst ` set ps"
    using Cons.IH Cons.prems by simp_all
  have fresh: "path \<notin> fst ` set ps"
    using Cons.prems p by simp
  have False
    if "k \<in> set (map key (visits p))" "k \<in> set (map key (concat (map visits ps)))" for k
  proof -
    have "fst k = path"
      using fst_here that(1) by blast
    moreover have "fst k \<in> fst ` set ps"
      using rest(2) that(2) by blast
    ultimately show False
      using fresh by simp
  qed
  then have disjoint:
    "set (map key (visits p)) \<inter> set (map key (concat (map visits ps))) = {}"
    by blast
  have "distinct (map key (visits p) @ map key (concat (map visits ps)))"
    using dist_here rest(1) disjoint by (simp only: distinct_append)
  moreover have "\<forall>k\<in>set (map key (visits p) @ map key (concat (map visits ps))).
                   fst k \<in> fst ` set (p # ps)"
  proof
    fix k
    assume "k \<in> set (map key (visits p) @ map key (concat (map visits ps)))"
    then consider "k \<in> set (map key (visits p))" | "k \<in> set (map key (concat (map visits ps)))"
      by auto
    then show "fst k \<in> fst ` set (p # ps)"
    proof cases
      case 1
      then have "fst k = path"
        using fst_here by blast
      then show ?thesis
        using p by simp
    next
      case 2
      then have "fst k \<in> fst ` set ps"
        using rest(2) by blast
      then show ?thesis
        by simp
    qed
  qed
  ultimately show ?case
    by (simp only: list.map concat.simps map_append)
qed

lemma synthesized_all_distinct:
  assumes "distinct (map fst (sp_paths spec))"
  shows "distinct (map (\<lambda>(path, pathItem, m, op). methodName m @ [0x5F] @ path)
                     (declaredOperations spec))"
proof -
  let ?key = "\<lambda>x :: jsstring \<times> PathItemObject \<times> HttpMethod \<times> OperationObject.
                (fst x, fst (snd (snd x)))"
  have keys: "distinct (map ?key (declaredOperations spec))"
    unfolding declaredOperations_def using declared_keys_distinct [OF assms] by blast
  have inj: "inj_on (\<lambda>k. methodName (snd k) @ [0x5F] @ fst k) A" for A
  proof (rule inj_onI)
    fix x y :: "jsstring \<times> HttpMethod"
    assume "methodName (snd x) @ [0x5F] @ fst x = methodName (snd y) @ [0x5F] @ fst y"
    then have "snd x = snd y \<and> fst x = fst y"
      by (rule synthesized_inj)
    then show "x = y"
      by (simp add: prod_eq_iff)
  qed
  have "map (\<lambda>(path, pathItem, m, op). methodName m @ [0x5F] @ path) (declaredOperations spec)
          = map (\<lambda>k. methodName (snd k) @ [0x5F] @ fst k) (map ?key (declaredOperations spec))"
    by (simp add: case_prod_unfold comp_def)
  then show ?thesis
    using keys inj by (simp only: distinct_map)
qed

text \<open>
  Claim C4, as the code has it. An identifier is the explicit \<open>operationId\<close> when the
  operation declares one, copied as it is, else \<open><method>_<path>\<close>; nothing compares
  identifiers. For a document whose paths are the distinct keys of its paths table, no
  two operations of the catalog share an id exactly when the explicit identifiers of the
  document are pairwise distinct and none of them is the synthesized identifier of an
  operation that declares none.
\<close>

theorem ids_unique_iff:
  assumes "distinct (map fst (sp_paths spec))"
  shows "distinct (map po_id (parseOperations localeCompare spec))
           = (distinct (explicitIds spec)
              \<and> set (explicitIds spec) \<inter> set (synthesizedIds spec) = {})"
proof -
  let ?e = "\<lambda>(path :: jsstring, pathItem :: PathItemObject, m :: HttpMethod,
                op :: OperationObject). o_operationId op"
  let ?g = "\<lambda>(path, pathItem :: PathItemObject, m, op :: OperationObject).
              methodName m @ [0x5F] @ path"
  have ids: "map po_id (walkOperations spec)
             = map (\<lambda>x. case ?e x of Some i \<Rightarrow> i | None \<Rightarrow> ?g x) (declaredOperations spec)"
    unfolding walk_ids by (rule map_cong) (auto split: option.splits)
  have none: "(\<lambda>x. ?e x = None)
              = (\<lambda>(path, pathItem, m, op). o_operationId op = None)"
    by (auto simp: fun_eq_iff)
  have synth: "distinct (synthesizedIds spec)"
    unfolding synthesizedIds_def
    using synthesized_all_distinct [OF assms] by (rule distinct_map_filter)
  have "distinct (map po_id (walkOperations spec))
          = (distinct (explicitIds spec) \<and> distinct (synthesizedIds spec)
             \<and> set (explicitIds spec) \<inter> set (synthesizedIds spec) = {})"
    unfolding ids explicitIds_def synthesizedIds_def
    using mixed_ids_distinct [where e = ?e and g = ?g and xs = "declaredOperations spec"]
    by (simp only: none)
  then show ?thesis
    using synth by (simp only: parseOperations_def distinct_map_sortWith) simp
qed


lemma mixed_ids:
  "explicitIds mixedSpec = [str16 ''listA'', str16 ''listB'']"
  "synthesizedIds mixedSpec = [str16 ''post_/a'']"
  by (simp_all add: explicitIds_def synthesizedIds_def declaredOperations_def mixedSpec_def
        emptyPathItem_def namedOperation_def emptyOperation_def SUPPORTED_METHODS_def
        List.map_filter_def str16_def)

text \<open>The sample document with two explicit identifiers and a synthesized one.\<close>

theorem ids_unique_iff_witness:
  "distinct (map fst (sp_paths mixedSpec))
   \<and> explicitIds mixedSpec = [str16 ''listA'', str16 ''listB'']
   \<and> synthesizedIds mixedSpec = [str16 ''post_/a'']
   \<and> distinct (map po_id (parseOperations codeUnitCompare mixedSpec))"
proof -
  have paths: "distinct (map fst (sp_paths mixedSpec))"
    by (simp add: mixedSpec_def str16_def)
  have "distinct (explicitIds mixedSpec)
        \<and> set (explicitIds mixedSpec) \<inter> set (synthesizedIds mixedSpec) = {}"
    by (simp only: mixed_ids) (simp add: str16_def)
  then have "distinct (map po_id (parseOperations codeUnitCompare mixedSpec))"
    using ids_unique_iff [OF paths, of codeUnitCompare] by simp
  then show ?thesis
    using paths mixed_ids by (intro conjI)
qed

text \<open>
  Claim C4 as the specification states it fails: two operations, under \<open>/a\<close> and
  \<open>/b\<close>, that both declare the identifier \<open>list\<close> are two operations of the catalog
  with the same id.
\<close>

theorem duplicate_operationId_counterexample:
  "map po_id (parseOperations codeUnitCompare twinSpec) = [str16 ''list'', str16 ''list'']
   \<and> map po_path (parseOperations codeUnitCompare twinSpec) = [str16 ''/a'', str16 ''/b'']
   \<and> \<not> distinct (map po_id (parseOperations codeUnitCompare twinSpec))"
  by (simp add: parseOperations_def walkOperations_def declaredOperations_def sortWith_def
        compareOperations_def
        parseOperation_def Let_def twinSpec_def emptyPathItem_def namedOperation_def
        emptyOperation_def SUPPORTED_METHODS_def List.map_filter_def elems_def str16_def)

section \<open>Properties of the relay\<close>

text \<open>
  Claim C9, as the code has it, for both handlers and a payload posted to the relay,
  whatever its method, headers and body. A target URL that the platform parses and that
  is not an HTTPS URL with an allow-listed hostname is answered with 403 and the
  disallowed-host message; a target URL that does not parse is answered with 400 as
  invalid, and a missing or blank one with 400 as missing. None of the three makes an
  upstream request.
\<close>

theorem relay_rejects_before_upstream:
  assumes "rq_method request = Some (str16 ''POST'')"
      and "rq_body request = Payload payload"
  shows
    "(\<forall>t u. pl_url payload = Some t \<and> trim t \<noteq> [] \<and> URL_new rt (trim t) = Some u
            \<and> (url_protocol u \<noteq> str16 ''https:'' \<or> url_hostname u \<notin> ALLOWED_HOSTS) \<longrightarrow>
        handler_edge rt request = respond 403 ''Target host is not allowed''
        \<and> handler_node rt request = respond 403 ''Target host is not allowed'')
     \<and> (\<forall>t. pl_url payload = Some t \<and> trim t \<noteq> [] \<and> URL_new rt (trim t) = None \<longrightarrow>
        handler_edge rt request = respond 400 ''Invalid target URL''
        \<and> handler_node rt request = respond 400 ''Invalid target URL'')
     \<and> (pl_url payload = None \<or> map_option trim (pl_url payload) = Some [] \<longrightarrow>
        handler_edge rt request = respond 400 ''Missing target URL''
        \<and> handler_node rt request = respond 400 ''Missing target URL'')
     \<and> snd (respond 403 ''Target host is not allowed'') = []
     \<and> snd (respond 400 ''Invalid target URL'') = []
     \<and> snd (respond 400 ''Missing target URL'') = []"
proof -
  have disallowed:
    "handler_edge rt request = respond 403 ''Target host is not allowed''
     \<and> handler_node rt request = respond 403 ''Target host is not allowed''"
    if "pl_url payload = Some t" "trim t \<noteq> []" "URL_new rt (trim t) = Some u"
       "url_protocol u \<noteq> str16 ''https:'' \<or> url_hostname u \<notin> ALLOWED_HOSTS" for t u
    using assms that by (simp add: handler_edge_def handler_node_def)
  have invalid:
    "handler_edge rt request = respond 400 ''Invalid target URL''
     \<and> handler_node rt request = respond 400 ''Invalid target URL''"
    if "pl_url payload = Some t" "trim t \<noteq> []" "URL_new rt (trim t) = None" for t
    using assms that by (simp add: handler_edge_def handler_node_def)
  have missing:
    "handler_edge rt request = respond 400 ''Missing target URL''
     \<and> handler_node rt request = respond 400 ''Missing target URL''"
    if "pl_url payload = None \<or> map_option trim (pl_url payload) = Some []"
    using assms that by (auto simp add: handler_edge_def handler_node_def)
  have silent: "snd (respond status message) = []" for status message
    by (simp add: respond_def)
  show ?thesis
    using disallowed invalid missing silent by blast
qed

lemma evil_url: "trim (str16 ''https://evil.example.com/x'') = str16 ''https://evil.example.com/x''"
  by (simp add: trim_def str16_def isWhiteSpace_def)

text \<open>
  The relay request of the specification: \<open>https://evil.example.com/x\<close>, here with
  the method \<open>delete\<close>, a \<open>Host\<close> header and a body.
\<close>

theorem relay_rejects_before_upstream_witness:
  "handler_edge sampleRuntime (relayPost (payloadFor ''https://evil.example.com/x''))
     = respond 403 ''Target host is not allowed''
   \<and> handler_node sampleRuntime (relayPost (payloadFor ''https://evil.example.com/x''))
     = respond 403 ''Target host is not allowed''
   \<and> snd (respond 403 ''Target host is not allowed'') = []"
proof -
  have post: "rq_method (relayPost (payloadFor ''https://evil.example.com/x''))
              = Some (str16 ''POST'')"
    by (simp add: relayPost_def)
  have body: "rq_body (relayPost (payloadFor ''https://evil.example.com/x''))
              = Payload (payloadFor ''https://evil.example.com/x'')"
    by (simp add: relayPost_def)
  have url: "pl_url (payloadFor ''https://evil.example.com/x'')
             = Some (str16 ''https://evil.example.com/x'')"
    by (simp add: payloadFor_def)
  have nonempty: "trim (str16 ''https://evil.example.com/x'') \<noteq> []"
    by (simp only: evil_url) (simp add: str16_def)
  have parsed: "URL_new sampleRuntime (trim (str16 ''https://evil.example.com/x''))
                = Some \<lparr> url_protocol = str16 ''https:'',
                         url_hostname = str16 ''evil.example.com'',
                         url_href = str16 ''https://evil.example.com/x'' \<rparr>"
    by (simp only: evil_url) (simp add: sampleRuntime_def knownUrls_def)
  have host: "url_hostname \<lparr> url_protocol = str16 ''https:'',
                         url_hostname = str16 ''evil.example.com'',
                         url_href = str16 ''https://evil.example.com/x'' \<rparr> \<notin> ALLOWED_HOSTS"
    by (simp add: ALLOWED_HOSTS_def str16_def)
  show ?thesis
    using relay_rejects_before_upstream [OF post body, of sampleRuntime] url nonempty parsed host
    by blast
qed

text \<open>
  Claim C9 as the specification states it fails: the target URLs \<open>not a url\<close> and
  the blank text are not HTTPS URLs of an allow-listed host, and the relay answers
  them with 400, not 403.
\<close>

theorem relay_invalid_url_counterexample:
  "fst (handler_edge sampleRuntime (relayPost (payloadFor ''not a url'')))
     = \<lparr> rs_status = 400, rs_body = str16 ''Invalid target URL'', rs_headers = [] \<rparr>
   \<and> fst (handler_node sampleRuntime (relayPost (payloadFor ''not a url'')))
     = \<lparr> rs_status = 400, rs_body = str16 ''Invalid target URL'', rs_headers = [] \<rparr>
   \<and> fst (handler_edge sampleRuntime (relayPost (payloadFor ''   '')))
     = \<lparr> rs_status = 400, rs_body = str16 ''Missing target URL'', rs_headers = [] \<rparr>
   \<and> fst (handler_node sampleRuntime (relayPost (payloadFor ''   '')))
     = \<lparr> rs_status = 400, rs_body = str16 ''Missing target URL'', rs_headers = [] \<rparr>"
  by (simp add: handler_edge_def handler_node_def relayPost_def payloadFor_def respond_def
        sampleRuntime_def knownUrls_def trim_def isWhiteSpace_def str16_def)

section \<open>Properties of URL construction\<close>

subsection \<open>The percent-encoder\<close>


















subsection \<open>Placeholders\<close>















end
